theory Spec2Isabelle
  imports Complex_Main "HOL-Library.Word" "HOL-Library.Code_Target_Nat"
begin

section \<open>Data model\<close>

text \<open>
  The library works on untyped handles (\<open>const void *\<close>) to values of the primitive kinds.
  A handle is modelled as an \<open>option\<close>: \<open>None\<close> is the \<open>NULL\<close> pointer, \<open>Some v\<close> a valid
  pointer whose pointee is \<open>v\<close>.  A C \<open>int\<close> is a \<open>32 word\<close> read with \<open>sint\<close>; a C
  \<open>char\<close> is an Isabelle \<open>char\<close> (one byte); a C string is the list of the bytes in front
  of its terminating NUL.

  Two revisions of \<open>utilities.c\<close> are in the sources: \<open>src/src/utilities.c\<close>, whose
  functions keep their names here, and the revision \<open>src/unnamed/part_006\<close>, whose functions
  carry the suffix \<open>_rev\<close> where the two differ.
\<close>

type_synonym c_int = "32 word"

definition INT_MAX :: int where
  "INT_MAX = 2147483647"

definition INT_MIN :: int where
  "INT_MIN = - INT_MAX - 1"

definition LONG_MAX :: int where
  "LONG_MAX = 9223372036854775807"

definition LONG_MIN :: int where
  "LONG_MIN = - LONG_MAX - 1"

definition ERANGE :: int where
  "ERANGE = 34"

definition DBL_DIG :: nat where
  "DBL_DIG = 15"

definition DEF_NULL :: string where
  "DEF_NULL = ''null''"

text \<open>
  An IEEE-754 double, as far as the relational operators of C see it: a NaN, an infinity, the
  negative zero \<open>-0.0\<close>, or any other finite value, given by the real number it denotes
  (\<open>Finite 0\<close> is \<open>+0.0\<close>).  The two zeros are different values.
\<close>

datatype double = NaN | MInf | NegZero | Finite real | PInf

text \<open>
  The operator \<open><\<close> on doubles: every comparison with a NaN is false, and \<open>-0.0\<close> compares
  as the number 0.
\<close>

fun double_less :: "double \<Rightarrow> double \<Rightarrow> bool" where
  "double_less NaN _ = False"
| "double_less _ NaN = False"
| "double_less MInf MInf = False"
| "double_less MInf _ = True"
| "double_less _ MInf = False"
| "double_less PInf _ = False"
| "double_less _ PInf = True"
| "double_less NegZero NegZero = False"
| "double_less NegZero (Finite y) = (0 < y)"
| "double_less (Finite x) NegZero = (x < 0)"
| "double_less (Finite x) (Finite y) = (x < y)"

text \<open>A byte read as \<open>unsigned char\<close>.\<close>

definition uchar :: "char \<Rightarrow> int" where
  "uchar c = int (of_char c)"

text \<open>
  Integer promotion of a \<open>char\<close> to \<open>int\<close>.  Whether plain \<open>char\<close> is signed is the
  platform's choice, so it is a parameter (\<open>True\<close> on x86 with gcc).
\<close>

definition char_to_int :: "bool \<Rightarrow> char \<Rightarrow> int" where
  "char_to_int signed_char c =
     (if signed_char \<and> 128 \<le> uchar c then uchar c - 256 else uchar c)"

text \<open>
  Subtraction of two \<open>int\<close>s as the machine does it, wrapping modulo \<open>2 ^ 32\<close>, and the
  condition under which the mathematical difference does not fit (signed overflow, which C
  leaves undefined).
\<close>

definition int_sub :: "int \<Rightarrow> int \<Rightarrow> c_int" where
  "int_sub a b = word_of_int a - word_of_int b"

definition int_sub_overflows :: "int \<Rightarrow> int \<Rightarrow> bool" where
  "int_sub_overflows a b \<longleftrightarrow> a - b < INT_MIN \<or> INT_MAX < a - b"

section \<open>Comparison functions\<close>

text \<open>The operator \<open>!\<close> on a pointer: 1 for \<open>NULL\<close>, 0 otherwise.\<close>

definition lnot :: "'a option \<Rightarrow> int" where
  "lnot p = (if p = None then 1 else 0)"

text \<open>\<open>(!p1 < !p2) - (!p1 > !p2)\<close>, the branch every comparison takes when a handle is NULL.\<close>

definition null_cmp :: "'a option \<Rightarrow> 'a option \<Rightarrow> c_int" where
  "null_cmp p1 p2 = int_sub (of_bool (lnot p1 < lnot p2)) (of_bool (lnot p1 > lnot p2))"

definition util_char_cmp :: "bool \<Rightarrow> char option \<Rightarrow> char option \<Rightarrow> c_int" where
  "util_char_cmp signed_char char1 char2 =
     (case (char1, char2) of
        (Some c1, Some c2) \<Rightarrow> int_sub (char_to_int signed_char c1) (char_to_int signed_char c2)
      | _ \<Rightarrow> null_cmp char1 char2)"

text \<open>\<open>src/src/utilities.c\<close>: \<open>return *(const int *) int1 - *(const int *) int2;\<close>\<close>

definition util_int_cmp :: "c_int option \<Rightarrow> c_int option \<Rightarrow> c_int" where
  "util_int_cmp int1 int2 =
     (case (int1, int2) of
        (Some i1, Some i2) \<Rightarrow> int_sub (sint i1) (sint i2)
      | _ \<Rightarrow> null_cmp int1 int2)"

text \<open>\<open>src/unnamed/part_006\<close>: \<open>return (i1 > i2) - (i1 < i2);\<close>\<close>

definition util_int_cmp_rev :: "c_int option \<Rightarrow> c_int option \<Rightarrow> c_int" where
  "util_int_cmp_rev int1 int2 =
     (case (int1, int2) of
        (Some i1, Some i2) \<Rightarrow> int_sub (of_bool (sint i1 > sint i2)) (of_bool (sint i1 < sint i2))
      | _ \<Rightarrow> null_cmp int1 int2)"

definition util_double_cmp :: "double option \<Rightarrow> double option \<Rightarrow> c_int" where
  "util_double_cmp double1 double2 =
     (case (double1, double2) of
        (Some d1, Some d2) \<Rightarrow> int_sub (of_bool (double_less d2 d1)) (of_bool (double_less d1 d2))
      | _ \<Rightarrow> null_cmp double1 double2)"

text \<open>
  \<open>strcmp\<close> of the C library: the difference of the first two bytes that differ, read as
  \<open>unsigned char\<close>; the end of a string is its NUL byte.  The C standard fixes the sign of
  the result only, and only the sign is used below.
\<close>

fun strcmp :: "string \<Rightarrow> string \<Rightarrow> int" where
  "strcmp [] [] = 0"
| "strcmp [] (y # ys) = 0 - uchar y"
| "strcmp (x # xs) [] = uchar x - 0"
| "strcmp (x # xs) (y # ys) = (if x = y then strcmp xs ys else uchar x - uchar y)"

text \<open>A well-formed C string has no NUL byte in front of its terminator.\<close>

definition cstring :: "string \<Rightarrow> bool" where
  "cstring s \<longleftrightarrow> CHR 0x00 \<notin> set s"

definition util_string_cmp :: "string option \<Rightarrow> string option \<Rightarrow> c_int" where
  "util_string_cmp str1 str2 =
     (case (str1, str2) of
        (Some s1, Some s2) \<Rightarrow> word_of_int (strcmp s1 s2)
      | _ \<Rightarrow> null_cmp str1 str2)"

section \<open>The C library: formatting, parsing, streams\<close>

text \<open>The conversion \<open>%d\<close>: a minus sign for a negative value, then the decimal digits.\<close>

definition digit_char :: "nat \<Rightarrow> char" where
  "digit_char d = ''0123456789'' ! d"

fun fmt_u :: "nat \<Rightarrow> string" where
  "fmt_u n = (if n < 10 then [digit_char n] else fmt_u (n div 10) @ [digit_char (n mod 10)])"

declare fmt_u.simps [simp del]

definition fmt_d :: "int \<Rightarrow> string" where
  "fmt_d i = (if i < 0 then CHR ''-'' # fmt_u (nat (- i)) else fmt_u (nat i))"

text \<open>The conversion \<open>%x\<close> (\<open>PRIxPTR\<close>): lowercase hexadecimal digits.\<close>

definition hex_char :: "nat \<Rightarrow> char" where
  "hex_char d = ''0123456789abcdef'' ! d"

fun fmt_x :: "nat \<Rightarrow> string" where
  "fmt_x n = (if n < 16 then [hex_char n] else fmt_x (n div 16) @ [hex_char (n mod 16)])"

declare fmt_x.simps [simp del]

text \<open>
  \<open>snprintf(str, n, ...)\<close> stores at most \<open>n - 1\<close> bytes of the formatted text and a
  terminating NUL; the model gives the string the buffer holds afterwards.
\<close>

definition snprintf :: "nat \<Rightarrow> string \<Rightarrow> string" where
  "snprintf n text = take (n - 1) text"

text \<open>
  \<open>ceil(log10(n))\<close> for a positive integer \<open>n\<close>: the least \<open>k\<close> with \<open>n \<le> 10 ^ k\<close>.
\<close>

fun ceil_log10 :: "nat \<Rightarrow> nat" where
  "ceil_log10 n = (if n \<le> 1 then 0 else Suc (ceil_log10 ((n + 9) div 10)))"

declare ceil_log10.simps [simp del]

text \<open>
  An output stream: the bytes written to it so far, and whether the next write fails.
  \<open>fprintf\<close> returns the number of bytes written, or a negative value when the write fails.
\<close>

record stream =
  written :: string
  failing :: bool

definition fprintf :: "stream \<Rightarrow> string \<Rightarrow> stream \<times> int" where
  "fprintf file text =
     (if failing file then (file, - 1)
      else (file\<lparr>written := written file @ text\<rparr>, int (length text)))"

text \<open>
  \<open>strtol(str, &end, 10)\<close>: white space is skipped, a sign is optional, then the longest run
  of decimal digits is read.  The result holds the value returned, the offset of \<open>end\<close> from
  \<open>str\<close> (0 when no conversion was made) and whether \<open>errno\<close> was set to \<open>ERANGE\<close>; a
  value outside \<open>long\<close> (64 bits) is clamped.
\<close>

definition isspace :: "char \<Rightarrow> bool" where
  "isspace c \<longleftrightarrow> c \<in> set [CHR '' '', CHR 0x09, CHR 0x0A, CHR 0x0B, CHR 0x0C, CHR 0x0D]"

definition isdigit :: "char \<Rightarrow> bool" where
  "isdigit c \<longleftrightarrow> 48 \<le> uchar c \<and> uchar c \<le> 57"

definition digits_value :: "string \<Rightarrow> int" where
  "digits_value ds = foldl (\<lambda>acc c. 10 * acc + (uchar c - 48)) 0 ds"

record strtol_result =
  sl_value :: int
  sl_end :: nat
  sl_erange :: bool

definition strtol_digits :: "nat \<Rightarrow> bool \<Rightarrow> string \<Rightarrow> strtol_result" where
  "strtol_digits skipped neg s =
     (let ds = takeWhile isdigit s;
          v = (if neg then - digits_value ds else digits_value ds)
      in if ds = [] then \<lparr>sl_value = 0, sl_end = 0, sl_erange = False\<rparr>
         else if LONG_MAX < v then
           \<lparr>sl_value = LONG_MAX, sl_end = skipped + length ds, sl_erange = True\<rparr>
         else if v < LONG_MIN then
           \<lparr>sl_value = LONG_MIN, sl_end = skipped + length ds, sl_erange = True\<rparr>
         else \<lparr>sl_value = v, sl_end = skipped + length ds, sl_erange = False\<rparr>)"

definition strtol :: "string \<Rightarrow> strtol_result" where
  "strtol str =
     (let n = length (takeWhile isspace str)
      in case dropWhile isspace str of
           [] \<Rightarrow> strtol_digits n False []
         | c # rest \<Rightarrow>
             if c = CHR ''-'' then strtol_digits (n + 1) True rest
             else if c = CHR ''+'' then strtol_digits (n + 1) False rest
             else strtol_digits n False (c # rest))"

text \<open>
  \<open>strtod\<close> is the platform's parser and a parameter of the model: for a string it gives the
  value returned, the offset of \<open>end\<close> from \<open>str\<close> and whether \<open>errno\<close> was set to
  \<open>ERANGE\<close> (overflow to an infinity, underflow to zero).  \<open>end\<close> points into the string.
\<close>

record strtod_result =
  sd_value :: double
  sd_end :: nat
  sd_erange :: bool

definition strtod_wf :: "(string \<Rightarrow> strtod_result) \<Rightarrow> bool" where
  "strtod_wf strtod \<longleftrightarrow> (\<forall>s. sd_end (strtod s) \<le> length s)"

section \<open>Printing functions\<close>

text \<open>
  \<open>assert(f)\<close> aborts the process on a NULL stream (with \<open>NDEBUG\<close> the assertion is
  compiled out and a NULL stream is undefined behaviour, which the model does not cover).
  The conversions \<open>%p\<close> and \<open>%.*g\<close> are the platform's and are parameters (\<open>fmt_p\<close>,
  \<open>fmt_g\<close> with its precision).
\<close>

datatype failure = Abort

definition util_generic_print ::
    "(nat \<Rightarrow> string) \<Rightarrow> stream option \<Rightarrow> nat option \<Rightarrow> failure + stream \<times> int" where
  "util_generic_print fmt_p f p =
     (case f of None \<Rightarrow> Inl Abort
      | Some file \<Rightarrow>
          (case p of None \<Rightarrow> Inr (fprintf file (DEF_NULL @ '' ''))
           | Some a \<Rightarrow> Inr (fprintf file (fmt_p a @ '' ''))))"

text \<open>\<open>src/unnamed/part_006\<close>: \<open>return fprintf(file, "0x%" PRIxPTR, (uintptr_t) p);\<close>\<close>

definition util_generic_print_rev :: "stream option \<Rightarrow> nat option \<Rightarrow> failure + stream \<times> int" where
  "util_generic_print_rev f p =
     (case f of None \<Rightarrow> Inl Abort
      | Some file \<Rightarrow>
          (case p of None \<Rightarrow> Inr (fprintf file (DEF_NULL @ '' ''))
           | Some a \<Rightarrow> Inr (fprintf file (''0x'' @ fmt_x a))))"

definition util_char_print :: "stream option \<Rightarrow> char option \<Rightarrow> failure + stream \<times> int" where
  "util_char_print f c =
     (case f of None \<Rightarrow> Inl Abort
      | Some file \<Rightarrow>
          (case c of None \<Rightarrow> Inr (fprintf file (DEF_NULL @ '' ''))
           | Some ch \<Rightarrow> Inr (fprintf file ([ch] @ '' ''))))"

definition util_int_print :: "stream option \<Rightarrow> c_int option \<Rightarrow> failure + stream \<times> int" where
  "util_int_print f i =
     (case f of None \<Rightarrow> Inl Abort
      | Some file \<Rightarrow>
          (case i of None \<Rightarrow> Inr (fprintf file (DEF_NULL @ '' ''))
           | Some v \<Rightarrow> Inr (fprintf file (fmt_d (sint v) @ '' ''))))"

text \<open>\<open>return fprintf(f, "%.*g", DBL_DIG, *(const double *) d);\<close> in both revisions.\<close>

definition util_double_print ::
    "(nat \<Rightarrow> double \<Rightarrow> string) \<Rightarrow> stream option \<Rightarrow> double option \<Rightarrow> failure + stream \<times> int" where
  "util_double_print fmt_g f d =
     (case f of None \<Rightarrow> Inl Abort
      | Some file \<Rightarrow>
          (case d of None \<Rightarrow> Inr (fprintf file (DEF_NULL @ '' ''))
           | Some v \<Rightarrow> Inr (fprintf file (fmt_g DBL_DIG v))))"

definition util_string_print :: "stream option \<Rightarrow> string option \<Rightarrow> failure + stream \<times> int" where
  "util_string_print f s =
     (case f of None \<Rightarrow> Inl Abort
      | Some file \<Rightarrow>
          (case s of None \<Rightarrow> Inr (fprintf file (DEF_NULL @ '' ''))
           | Some str \<Rightarrow> Inr (fprintf file (str @ '' ''))))"

section \<open>To string functions\<close>

text \<open>
  \<open>MAX_INT_LEN\<close> is \<open>ceil(log10(INT_MAX))\<close> in \<open>src/src/utilities.c\<close> and
  \<open>1 + ceil(log10(INT_MAX))\<close> in \<open>src/unnamed/part_006\<close>.  \<open>malloc_ok\<close> says whether the
  allocation succeeds; when it fails \<open>check_mem\<close> jumps to the label and NULL is returned.
\<close>

definition MAX_INT_LEN :: nat where
  "MAX_INT_LEN = ceil_log10 (nat INT_MAX)"

definition MAX_INT_LEN_rev :: nat where
  "MAX_INT_LEN_rev = 1 + ceil_log10 (nat INT_MAX)"

definition util_int_to_string :: "bool \<Rightarrow> c_int option \<Rightarrow> string option" where
  "util_int_to_string malloc_ok n =
     (case n of None \<Rightarrow> None
      | Some v \<Rightarrow>
          if \<not> malloc_ok then None
          else Some (snprintf (MAX_INT_LEN + 1) (fmt_d (sint v))))"

definition util_int_to_string_rev :: "bool \<Rightarrow> c_int option \<Rightarrow> string option" where
  "util_int_to_string_rev malloc_ok n =
     (case n of None \<Rightarrow> None
      | Some v \<Rightarrow>
          if \<not> malloc_ok then None
          else Some (snprintf (MAX_INT_LEN_rev + 1) (fmt_d (sint v))))"

section \<open>From string functions\<close>

text \<open>
  Each function takes whether its allocation succeeds, the value of \<open>errno\<close> on entry and the
  string; \<open>assert(str)\<close> aborts on NULL.  It returns the handle (\<open>None\<close> for NULL) and the
  value of \<open>errno\<close> on return.  The macro \<open>check(A, ...)\<close> logs, sets \<open>errno = 0\<close> and jumps
  to the label \<open>error\<close> when \<open>A\<close> is false.
\<close>

definition util_char_from_string ::
    "bool \<Rightarrow> int \<Rightarrow> string option \<Rightarrow> failure + char option \<times> int" where
  "util_char_from_string malloc_ok errno str =
     (case str of None \<Rightarrow> Inl Abort
      | Some s \<Rightarrow>
          if \<not> malloc_ok then Inr (None, 0)
          else Inr (Some (case s of [] \<Rightarrow> CHR 0x00 | c # _ \<Rightarrow> c), errno))"

text \<open>
  \<open>src/src/utilities.c\<close>:
  \<^verbatim>\<open>long tmp = strtol(str, &end, 10);
if (tmp > INT_MAX || tmp < INT_MAX) { errno = ERANGE; }
check(errno != 0, "Error parsing %s", str);
check(end != str, "No integer could be parsed from %s", str);
*i = (int) tmp;\<close>
\<close>

definition util_int_from_string ::
    "bool \<Rightarrow> int \<Rightarrow> string option \<Rightarrow> failure + c_int option \<times> int" where
  "util_int_from_string malloc_ok errno str =
     (case str of None \<Rightarrow> Inl Abort
      | Some s \<Rightarrow>
          if \<not> malloc_ok then Inr (None, 0)
          else
            let r = strtol s;
                errno1 = (if sl_erange r then ERANGE else errno);
                tmp = sl_value r;
                errno2 = (if tmp > INT_MAX \<or> tmp < INT_MAX then ERANGE else errno1)
            in if \<not> (errno2 \<noteq> 0) then Inr (None, 0)
               else if \<not> (sl_end r \<noteq> 0) then Inr (None, 0)
               else Inr (Some (word_of_int tmp), errno2))"

text \<open>
  \<open>src/unnamed/part_006\<close>:
  \<^verbatim>\<open>errno    = 0;
long tmp = strtol(str, &end, 10);
if (tmp > INT_MAX || tmp < INT_MIN) { errno = ERANGE; }
check(errno == 0, "Error parsing %s", str);
check(end != str, "No integer could be parsed from %s", str);
*i = (int) tmp;\<close>
\<close>

definition util_int_from_string_rev ::
    "bool \<Rightarrow> int \<Rightarrow> string option \<Rightarrow> failure + c_int option \<times> int" where
  "util_int_from_string_rev malloc_ok errno str =
     (case str of None \<Rightarrow> Inl Abort
      | Some s \<Rightarrow>
          if \<not> malloc_ok then Inr (None, 0)
          else
            let errno0 = 0;
                r = strtol s;
                errno1 = (if sl_erange r then ERANGE else errno0);
                tmp = sl_value r;
                errno2 = (if tmp > INT_MAX \<or> tmp < INT_MIN then ERANGE else errno1)
            in if \<not> (errno2 = 0) then Inr (None, 0)
               else if \<not> (sl_end r \<noteq> 0) then Inr (None, 0)
               else Inr (Some (word_of_int tmp), errno2))"

text \<open>
  \<open>src/src/utilities.c\<close>:
  \<^verbatim>\<open>*d = strtod(str, &end);
check(errno != 0, "Error parsing %s", str);
check(end != str, "No value could be parsed from %s", str);\<close>
\<close>

definition util_double_from_string ::
    "(string \<Rightarrow> strtod_result) \<Rightarrow> bool \<Rightarrow> int \<Rightarrow> string option
      \<Rightarrow> failure + double option \<times> int" where
  "util_double_from_string strtod malloc_ok errno str =
     (case str of None \<Rightarrow> Inl Abort
      | Some s \<Rightarrow>
          if \<not> malloc_ok then Inr (None, 0)
          else
            let r = strtod s;
                errno1 = (if sd_erange r then ERANGE else errno)
            in if \<not> (errno1 \<noteq> 0) then Inr (None, 0)
               else if \<not> (sd_end r \<noteq> 0) then Inr (None, 0)
               else Inr (Some (sd_value r), errno1))"

text \<open>
  \<open>src/unnamed/part_006\<close>:
  \<^verbatim>\<open>errno = 0;
*d    = strtod(str, &end);
check(errno == 0, "Error parsing %s", str);
check(end != str, "No value could be parsed from %s", str);\<close>
\<close>

definition util_double_from_string_rev ::
    "(string \<Rightarrow> strtod_result) \<Rightarrow> bool \<Rightarrow> int \<Rightarrow> string option
      \<Rightarrow> failure + double option \<times> int" where
  "util_double_from_string_rev strtod malloc_ok errno str =
     (case str of None \<Rightarrow> Inl Abort
      | Some s \<Rightarrow>
          if \<not> malloc_ok then Inr (None, 0)
          else
            let errno0 = 0;
                r = strtod s;
                errno1 = (if sd_erange r then ERANGE else errno0)
            in if \<not> (errno1 = 0) then Inr (None, 0)
               else if \<not> (sd_end r \<noteq> 0) then Inr (None, 0)
               else Inr (Some (sd_value r), errno1))"

text \<open>
  \<open>src/src/utilities.c\<close> allocates the cell \<open>p\<close> and then duplicates the string; the handle
  returned points to the cell, which points to the copy.
\<close>

definition util_string_from_string ::
    "bool \<Rightarrow> bool \<Rightarrow> int \<Rightarrow> string option \<Rightarrow> failure + string option \<times> int" where
  "util_string_from_string malloc_ok strdup_ok errno str =
     (case str of None \<Rightarrow> Inl Abort
      | Some s \<Rightarrow>
          if \<not> malloc_ok then Inr (None, 0)
          else if \<not> strdup_ok then Inr (None, 0)
          else Inr (Some s, errno))"

text \<open>\<open>src/unnamed/part_006\<close> returns the copy made by \<open>strdup\<close> itself.\<close>

definition util_string_from_string_rev ::
    "bool \<Rightarrow> int \<Rightarrow> string option \<Rightarrow> failure + string option \<times> int" where
  "util_string_from_string_rev strdup_ok errno str =
     (case str of None \<Rightarrow> Inl Abort
      | Some s \<Rightarrow>
          if \<not> strdup_ok then Inr (None, 0)
          else Inr (Some s, errno))"

section \<open>Induced orders and parsed text\<close>

text \<open>The relation a comparison function induces, and what the library promises about it.\<close>

definition cmp_le :: "('h \<Rightarrow> 'h \<Rightarrow> c_int) \<Rightarrow> 'h \<Rightarrow> 'h \<Rightarrow> bool" where
  "cmp_le cmp a b \<longleftrightarrow> sint (cmp a b) \<le> 0"

definition total_order_on :: "'h set \<Rightarrow> ('h \<Rightarrow> 'h \<Rightarrow> c_int) \<Rightarrow> bool" where
  "total_order_on H cmp \<longleftrightarrow>
     (\<forall>a\<in>H. cmp_le cmp a a) \<and>
     (\<forall>a\<in>H. \<forall>b\<in>H. cmp_le cmp a b \<and> cmp_le cmp b a \<longrightarrow> a = b) \<and>
     (\<forall>a\<in>H. \<forall>b\<in>H. \<forall>c\<in>H. cmp_le cmp a b \<and> cmp_le cmp b c \<longrightarrow> cmp_le cmp a c) \<and>
     (\<forall>a\<in>H. \<forall>b\<in>H. cmp_le cmp a b \<or> cmp_le cmp b a)"

text \<open>
  The same with antisymmetry up to a relation \<open>eq\<close>: two handles that are below each other
  are related by \<open>eq\<close>, not necessarily equal.
\<close>

definition total_order_modulo ::
    "('h \<Rightarrow> 'h \<Rightarrow> bool) \<Rightarrow> 'h set \<Rightarrow> ('h \<Rightarrow> 'h \<Rightarrow> c_int) \<Rightarrow> bool" where
  "total_order_modulo eq H cmp \<longleftrightarrow>
     (\<forall>a\<in>H. cmp_le cmp a a) \<and>
     (\<forall>a\<in>H. \<forall>b\<in>H. cmp_le cmp a b \<and> cmp_le cmp b a \<longrightarrow> eq a b) \<and>
     (\<forall>a\<in>H. \<forall>b\<in>H. \<forall>c\<in>H. cmp_le cmp a b \<and> cmp_le cmp b c \<longrightarrow> cmp_le cmp a c) \<and>
     (\<forall>a\<in>H. \<forall>b\<in>H. cmp_le cmp a b \<or> cmp_le cmp b a)"

definition null_first :: "('a option \<Rightarrow> 'a option \<Rightarrow> c_int) \<Rightarrow> bool" where
  "null_first cmp \<longleftrightarrow>
     (\<forall>v. sint (cmp None (Some v)) < 0 \<and> 0 < sint (cmp (Some v) None)) \<and>
     sint (cmp None None) = 0"

text \<open>
  What \<open>strtol\<close> reads of a string, in the words of the C standard: after the white space, the
  sign (\<open>True\<close> for a minus) and the rest; the run of decimal digits that leads the rest; and
  the integer that sign and digits denote.
\<close>

definition subject :: "string \<Rightarrow> bool \<times> string" where
  "subject str =
     (case dropWhile isspace str of
        [] \<Rightarrow> (False, [])
      | c # rest \<Rightarrow>
          if c = CHR ''-'' then (True, rest)
          else if c = CHR ''+'' then (False, rest)
          else (False, c # rest))"

definition digit_run :: "string \<Rightarrow> string" where
  "digit_run str = takeWhile isdigit (snd (subject str))"

definition run_value :: "string \<Rightarrow> int" where
  "run_value str =
     (if fst (subject str) then - digits_value (digit_run str) else digits_value (digit_run str))"

text \<open>The handles of well-formed strings, and the handles of doubles that are not NaN.\<close>

definition string_handles :: "string option set" where
  "string_handles = {h. \<forall>s. h = Some s \<longrightarrow> cstring s}"

definition ordered_doubles :: "double option set" where
  "ordered_doubles = {h. h \<noteq> Some NaN}"

text \<open>
  Two double handles are the same up to the sign of zero: they are equal, or each holds one
  of the two zeros.
\<close>

definition same_double :: "double option \<Rightarrow> double option \<Rightarrow> bool" where
  "same_double a b \<longleftrightarrow>
     a = b \<or> (a \<in> {Some NegZero, Some (Finite 0)} \<and> b \<in> {Some NegZero, Some (Finite 0)})"

section \<open>Comparison functions: the induced order\<close>

lemma uchar_range: "0 \<le> uchar c \<and> uchar c < 256"
  using nat_of_char_less_256 [of c] by (simp add: uchar_def)

lemma uchar_inj: "uchar c = uchar d \<longleftrightarrow> c = d"
  by (simp add: uchar_def)

lemma uchar_zero: "uchar c = 0 \<longleftrightarrow> c = CHR 0x00"
  using uchar_inj [of c "CHR 0x00"] by (simp add: uchar_def)

lemma char_to_int_range:
  "(if s then - 128 else 0) \<le> char_to_int s c \<and> char_to_int s c \<le> (if s then 127 else 255)"
  using uchar_range [of c] by (auto simp: char_to_int_def)

lemma char_diff_range:
  "- 255 \<le> char_to_int s c - char_to_int s d \<and> char_to_int s c - char_to_int s d \<le> 255"
  using char_to_int_range [of s c] char_to_int_range [of s d] by (cases s) simp_all

lemma char_to_int_inj: "char_to_int s c = char_to_int s d \<longleftrightarrow> c = d"
  using uchar_range [of c] uchar_range [of d] uchar_inj [of c d]
  by (auto simp: char_to_int_def split: if_splits)

lemma sint_int_sub: "\<not> int_sub_overflows a b \<Longrightarrow> sint (int_sub a b) = a - b"
proof -
  assume h: "\<not> int_sub_overflows a b"
  have "int_sub a b = word_of_int (a - b)" by (simp add: int_sub_def)
  then have "sint (int_sub a b) = signed_take_bit 31 (a - b)"
    by (simp only: sint_sbintrunc') simp
  also have "\<dots> = a - b"
    using h by (intro signed_take_bit_int_eq_self) (simp_all add: int_sub_overflows_def INT_MIN_def INT_MAX_def)
  finally show ?thesis .
qed

lemma sint_small: "- 255 \<le> k \<Longrightarrow> k \<le> 255 \<Longrightarrow> sint (word_of_int k :: c_int) = k"
  by (simp only: sint_sbintrunc') (simp add: signed_take_bit_int_eq_self)

lemma sint_bool_sub: "sint (int_sub (of_bool p) (of_bool q)) = of_bool p - of_bool q"
  by (rule sint_int_sub) (simp add: int_sub_overflows_def INT_MIN_def INT_MAX_def)

lemma null_cmp_vals:
  "sint (null_cmp None None) = 0" "sint (null_cmp None (Some x)) = -1" "sint (null_cmp (Some x) None) = 1"
  by (simp_all add: null_cmp_def lnot_def int_sub_def)

lemma char_sub_no_overflow: "\<not> int_sub_overflows (char_to_int s c) (char_to_int s d)"
  using char_diff_range [of s c d]
  by (simp add: int_sub_overflows_def INT_MIN_def INT_MAX_def)

lemma sint_util_char_cmp:
  "sint (util_char_cmp s (Some c) (Some d)) = char_to_int s c - char_to_int s d"
  by (simp add: util_char_cmp_def sint_int_sub char_sub_no_overflow)

lemma sint_util_double_cmp:
  "sint (util_double_cmp (Some x) (Some y)) = of_bool (double_less y x) - of_bool (double_less x y)"
  by (simp add: util_double_cmp_def sint_bool_sub)

lemma sint_util_int_cmp_rev:
  "sint (util_int_cmp_rev (Some x) (Some y)) = of_bool (sint y < sint x) - of_bool (sint x < sint y)"
  by (simp add: util_int_cmp_rev_def sint_bool_sub)

lemma strcmp_range: "- 255 \<le> strcmp s t \<and> strcmp s t \<le> 255"
proof (induction s t rule: strcmp.induct)
  case (2 y ys) then show ?case using uchar_range [of y] by simp
next
  case (3 x xs) then show ?case using uchar_range [of x] by simp
next
  case (4 x xs y ys) then show ?case using uchar_range [of x] uchar_range [of y] by simp
qed simp

lemma strcmp_refl: "strcmp s s = 0"
  by (induction s) simp_all

lemma strcmp_eq: "cstring s \<Longrightarrow> cstring t \<Longrightarrow> strcmp s t = 0 \<Longrightarrow> s = t"
  by (induction s t rule: strcmp.induct) (auto simp: cstring_def uchar_zero uchar_inj split: if_splits)

lemma strcmp_sym: "strcmp t s = - strcmp s t"
  by (induction s t rule: strcmp.induct) auto

lemma strcmp_trans:
  "cstring s \<Longrightarrow> cstring t \<Longrightarrow> cstring u \<Longrightarrow> strcmp s t \<le> 0 \<Longrightarrow> strcmp t u \<le> 0 \<Longrightarrow> strcmp s u \<le> 0"
proof (induction s arbitrary: t u)
  case Nil
  then show ?case using uchar_range by (cases u) auto
next
  case (Cons x xs)
  from Cons.prems obtain y ys where t: "t = y # ys"
    using uchar_range [of x] uchar_zero [of x] by (cases t) (auto simp: cstring_def)
  from Cons.prems t obtain z zs where u: "u = z # zs"
    using uchar_range [of y] uchar_zero [of y] by (cases u) (auto simp: cstring_def)
  show ?case
    using Cons.prems Cons.IH [of ys zs] uchar_inj [of x y] uchar_inj [of y z] uchar_inj [of x z]
    unfolding t u by (auto simp: cstring_def split: if_splits)
qed

lemma sint_util_string_cmp: "sint (util_string_cmp (Some s) (Some t)) = strcmp s t"
  using strcmp_range [of s t] by (simp add: util_string_cmp_def sint_small)


lemma cmp_le_null:
  "cmp_le null_cmp None b" "\<not> cmp_le null_cmp (Some v) None"
  by (cases b; simp add: cmp_le_def null_cmp_vals)+

lemma total_order_lift:
  assumes null: "\<And>a b. a = None \<or> b = None \<Longrightarrow> cmp a b = null_cmp a b"
    and refl: "\<And>v. Some v \<in> H \<Longrightarrow> cmp_le cmp (Some v) (Some v)"
    and antisym: "\<And>v w. Some v \<in> H \<Longrightarrow> Some w \<in> H \<Longrightarrow>
        cmp_le cmp (Some v) (Some w) \<Longrightarrow> cmp_le cmp (Some w) (Some v) \<Longrightarrow> v = w"
    and trans: "\<And>v w x. Some v \<in> H \<Longrightarrow> Some w \<in> H \<Longrightarrow> Some x \<in> H \<Longrightarrow>
        cmp_le cmp (Some v) (Some w) \<Longrightarrow> cmp_le cmp (Some w) (Some x) \<Longrightarrow> cmp_le cmp (Some v) (Some x)"
    and total: "\<And>v w. Some v \<in> H \<Longrightarrow> Some w \<in> H \<Longrightarrow>
        cmp_le cmp (Some v) (Some w) \<or> cmp_le cmp (Some w) (Some v)"
  shows "total_order_on H cmp"
proof -
  have n1: "cmp_le cmp None b" for b
    using null [of None b] cmp_le_null(1) [of b] by (simp add: cmp_le_def)
  have n2: "\<not> cmp_le cmp (Some v) None" for v
    using null [of "Some v" None] cmp_le_null(2) [of v] by (simp add: cmp_le_def)
  have r: "cmp_le cmp a a" if "a \<in> H" for a
    using that n1 refl by (cases a) auto
  have a: "a = b" if "a \<in> H" "b \<in> H" "cmp_le cmp a b" "cmp_le cmp b a" for a b
    using that n2 antisym by (cases a; cases b) auto
  have t: "cmp_le cmp a c" if "a \<in> H" "b \<in> H" "c \<in> H" "cmp_le cmp a b" "cmp_le cmp b c" for a b c
  proof (cases a)
    case None then show ?thesis using n1 by simp
  next
    case (Some v)
    with that n2 obtain w where b: "b = Some w" by (cases b) auto
    with that n2 obtain x where c: "c = Some x" by (cases c) auto
    show ?thesis using that trans [of v w x] unfolding Some b c by simp
  qed
  have l: "cmp_le cmp a b \<or> cmp_le cmp b a" if "a \<in> H" "b \<in> H" for a b
    using that n1 total by (cases a; cases b) auto
  show ?thesis
    unfolding total_order_on_def using r a t l by blast
qed

lemma null_first_lift:
  assumes "\<And>a b. a = None \<or> b = None \<Longrightarrow> cmp a b = null_cmp a b"
  shows "null_first cmp"
  using assms by (simp add: null_first_def null_cmp_vals)

lemma char_cmp_order: "total_order_on UNIV (util_char_cmp s)"
proof (rule total_order_lift)
  show "util_char_cmp s a b = null_cmp a b" if "a = None \<or> b = None" for a b
    using that by (auto simp: util_char_cmp_def split: option.splits)
qed (auto simp: cmp_le_def sint_util_char_cmp dest: char_to_int_inj [THEN iffD1])

lemma char_cmp_null: "null_first (util_char_cmp s)"
  by (rule null_first_lift) (auto simp: util_char_cmp_def split: option.splits)

lemma int_cmp_null: "null_first util_int_cmp"
  by (rule null_first_lift) (auto simp: util_int_cmp_def split: option.splits)

lemma int_rev_le_iff: "cmp_le util_int_cmp_rev (Some x) (Some y) \<longleftrightarrow> sint x \<le> sint y"
  by (auto simp: cmp_le_def sint_util_int_cmp_rev)

lemma int_cmp_rev_order: "total_order_on UNIV util_int_cmp_rev"
proof (rule total_order_lift)
  show "util_int_cmp_rev a b = null_cmp a b" if "a = None \<or> b = None" for a b
    using that by (auto simp: util_int_cmp_rev_def split: option.splits)
next
  fix v w :: c_int
  assume "cmp_le util_int_cmp_rev (Some v) (Some w)" "cmp_le util_int_cmp_rev (Some w) (Some v)"
  then have "sint v = sint w" by (simp add: int_rev_le_iff)
  then show "v = w" by (rule signed_word_eqI)
qed (auto simp: int_rev_le_iff)

lemma int_cmp_rev_null: "null_first util_int_cmp_rev"
  by (rule null_first_lift) (auto simp: util_int_cmp_rev_def split: option.splits)

lemma double_le_iff:
  "cmp_le util_double_cmp (Some x) (Some y) \<longleftrightarrow> \<not> double_less y x \<or> double_less x y"
  by (simp add: cmp_le_def sint_util_double_cmp)

lemma total_order_modulo_lift:
  assumes null: "\<And>a b. a = None \<or> b = None \<Longrightarrow> cmp a b = null_cmp a b"
    and eq_null: "eq None None"
    and refl: "\<And>v. Some v \<in> H \<Longrightarrow> cmp_le cmp (Some v) (Some v)"
    and antisym: "\<And>v w. Some v \<in> H \<Longrightarrow> Some w \<in> H \<Longrightarrow>
        cmp_le cmp (Some v) (Some w) \<Longrightarrow> cmp_le cmp (Some w) (Some v) \<Longrightarrow> eq (Some v) (Some w)"
    and trans: "\<And>v w x. Some v \<in> H \<Longrightarrow> Some w \<in> H \<Longrightarrow> Some x \<in> H \<Longrightarrow>
        cmp_le cmp (Some v) (Some w) \<Longrightarrow> cmp_le cmp (Some w) (Some x) \<Longrightarrow> cmp_le cmp (Some v) (Some x)"
    and total: "\<And>v w. Some v \<in> H \<Longrightarrow> Some w \<in> H \<Longrightarrow>
        cmp_le cmp (Some v) (Some w) \<or> cmp_le cmp (Some w) (Some v)"
  shows "total_order_modulo eq H cmp"
proof -
  have n1: "cmp_le cmp None b" for b
    using null [of None b] cmp_le_null(1) [of b] by (simp add: cmp_le_def)
  have n2: "\<not> cmp_le cmp (Some v) None" for v
    using null [of "Some v" None] cmp_le_null(2) [of v] by (simp add: cmp_le_def)
  have r: "cmp_le cmp a a" if "a \<in> H" for a
    using that n1 refl by (cases a) auto
  have a: "eq a b" if "a \<in> H" "b \<in> H" "cmp_le cmp a b" "cmp_le cmp b a" for a b
    using that n2 antisym eq_null by (cases a; cases b) auto
  have t: "cmp_le cmp a c" if "a \<in> H" "b \<in> H" "c \<in> H" "cmp_le cmp a b" "cmp_le cmp b c" for a b c
  proof (cases a)
    case None then show ?thesis using n1 by simp
  next
    case (Some v)
    with that n2 obtain w where b: "b = Some w" by (cases b) auto
    with that n2 obtain x where c: "c = Some x" by (cases c) auto
    show ?thesis using that trans [of v w x] unfolding Some b c by simp
  qed
  have l: "cmp_le cmp a b \<or> cmp_le cmp b a" if "a \<in> H" "b \<in> H" for a b
    using that n1 total by (cases a; cases b) auto
  show ?thesis
    unfolding total_order_modulo_def using r a t l by blast
qed

lemma double_cmp_order: "total_order_modulo same_double ordered_doubles util_double_cmp"
proof (rule total_order_modulo_lift)
  show "util_double_cmp a b = null_cmp a b" if "a = None \<or> b = None" for a b
    using that by (auto simp: util_double_cmp_def split: option.splits)
next
  show "same_double None None" by (simp add: same_double_def)
next
  fix v w x
  assume "Some v \<in> ordered_doubles" "Some w \<in> ordered_doubles" "Some x \<in> ordered_doubles"
    "cmp_le util_double_cmp (Some v) (Some w)" "cmp_le util_double_cmp (Some w) (Some x)"
  then show "cmp_le util_double_cmp (Some v) (Some x)"
    unfolding double_le_iff ordered_doubles_def by (cases v; cases w; cases x) auto
next
  fix v w
  assume "Some v \<in> ordered_doubles" "Some w \<in> ordered_doubles"
    "cmp_le util_double_cmp (Some v) (Some w)" "cmp_le util_double_cmp (Some w) (Some v)"
  then show "same_double (Some v) (Some w)"
    unfolding double_le_iff ordered_doubles_def same_double_def by (cases v; cases w) auto
next
  fix v w
  assume "Some v \<in> ordered_doubles" "Some w \<in> ordered_doubles"
  then show "cmp_le util_double_cmp (Some v) (Some w) \<or> cmp_le util_double_cmp (Some w) (Some v)"
    unfolding double_le_iff ordered_doubles_def by (cases v; cases w) auto
next
  fix v
  show "cmp_le util_double_cmp (Some v) (Some v)"
    unfolding double_le_iff by (cases v) auto
qed

lemma double_cmp_equal:
  assumes "a \<in> ordered_doubles" "b \<in> ordered_doubles"
  shows "sint (util_double_cmp a b) = 0 \<longleftrightarrow> same_double a b"
proof (cases a)
  case None
  then show ?thesis
    by (cases b) (simp_all add: util_double_cmp_def null_cmp_vals same_double_def)
next
  case a: (Some v)
  show ?thesis
  proof (cases b)
    case None
    then show ?thesis
      using a by (simp add: util_double_cmp_def null_cmp_vals same_double_def)
  next
    case (Some w)
    then show ?thesis
      using assms unfolding a Some sint_util_double_cmp ordered_doubles_def same_double_def
      by (cases v; cases w) auto
  qed
qed

lemma double_cmp_null: "null_first util_double_cmp"
  by (rule null_first_lift) (auto simp: util_double_cmp_def split: option.splits)

lemma string_cmp_order: "total_order_on string_handles util_string_cmp"
proof (rule total_order_lift)
  show "util_string_cmp a b = null_cmp a b" if "a = None \<or> b = None" for a b
    using that by (auto simp: util_string_cmp_def split: option.splits)
next
  fix v w x
  assume "Some v \<in> string_handles" "Some w \<in> string_handles" "Some x \<in> string_handles"
    "cmp_le util_string_cmp (Some v) (Some w)" "cmp_le util_string_cmp (Some w) (Some x)"
  then show "cmp_le util_string_cmp (Some v) (Some x)"
    using strcmp_trans [of v w x] by (simp add: cmp_le_def sint_util_string_cmp string_handles_def)
next
  fix v w
  assume "Some v \<in> string_handles" "Some w \<in> string_handles"
    "cmp_le util_string_cmp (Some v) (Some w)" "cmp_le util_string_cmp (Some w) (Some v)"
  then show "v = w"
    using strcmp_eq [of v w] strcmp_sym [of w v]
    by (simp add: cmp_le_def sint_util_string_cmp string_handles_def)
next
  fix v w
  show "cmp_le util_string_cmp (Some v) (Some w) \<or> cmp_le util_string_cmp (Some w) (Some v)"
    using strcmp_sym [of w v] unfolding cmp_le_def sint_util_string_cmp by linarith
next
  fix v
  show "cmp_le util_string_cmp (Some v) (Some v)"
    by (simp add: cmp_le_def sint_util_string_cmp strcmp_refl)
qed

lemma string_cmp_null: "null_first util_string_cmp"
  by (rule null_first_lift) (auto simp: util_string_cmp_def split: option.splits)

section \<open>Decimal text of an integer and its parse\<close>

lemma digit_char_props: "d < 10 \<Longrightarrow> isdigit (digit_char d) \<and> uchar (digit_char d) - 48 = int d"
proof -
  assume "d < 10"
  then have "d \<in> {0,1,2,3,4,5,6,7,8,9}" by auto
  then show ?thesis
    by (auto simp: digit_char_def isdigit_def uchar_def)
qed

lemma isdigit_not_space: "isdigit c \<Longrightarrow> \<not> isspace c \<and> c \<noteq> CHR ''-'' \<and> c \<noteq> CHR ''+''"
  by (auto simp: isdigit_def isspace_def uchar_def)

lemma digits_value_snoc: "digits_value (ds @ [c]) = 10 * digits_value ds + (uchar c - 48)"
  by (simp add: digits_value_def)

lemma fmt_u_digits: "fmt_u n \<noteq> [] \<and> (\<forall>c \<in> set (fmt_u n). isdigit c) \<and> digits_value (fmt_u n) = int n"
proof (induction n rule: fmt_u.induct)
  case (1 n)
  show ?case
  proof (cases "n < 10")
    case True
    then show ?thesis
      using digit_char_props [of n] by (simp add: fmt_u.simps [of n] digits_value_def)
  next
    case False
    have "n mod 10 < 10" by simp
    moreover have "10 * int (n div 10) + int (n mod 10) = int n"
      by presburger
    ultimately show ?thesis
      using digit_char_props [of "n mod 10"] 1 [OF False] False
      by (simp add: fmt_u.simps [of n] digits_value_snoc)
  qed
qed

lemma fmt_u_length: "0 < k \<Longrightarrow> n < 10 ^ k \<Longrightarrow> length (fmt_u n) \<le> k"
proof (induction n arbitrary: k rule: fmt_u.induct)
  case (1 n)
  show ?case
  proof (cases "n < 10")
    case True
    with 1 show ?thesis by (simp add: fmt_u.simps [of n] Suc_leI)
  next
    case False
    with "1.prems" obtain j where k: "k = Suc j" and j: "0 < j"
      by (cases k; cases "k - 1") auto
    from "1.prems" k have "n div 10 < 10 ^ j"
      by (simp add: less_mult_imp_div_less mult.commute)
    from "1.IH" [OF False j this] False k show ?thesis
      by (simp add: fmt_u.simps [of n])
  qed
qed

lemma takeWhile_all: "\<forall>c \<in> set xs. P c \<Longrightarrow> takeWhile P xs = xs"
  by (induction xs) auto

lemma strtol_digits_fmt_u:
  "strtol_digits k neg (fmt_u n) =
     (let v = (if neg then - int n else int n)
      in if LONG_MAX < v then \<lparr>sl_value = LONG_MAX, sl_end = k + length (fmt_u n), sl_erange = True\<rparr>
         else if v < LONG_MIN then \<lparr>sl_value = LONG_MIN, sl_end = k + length (fmt_u n), sl_erange = True\<rparr>
         else \<lparr>sl_value = v, sl_end = k + length (fmt_u n), sl_erange = False\<rparr>)"
  using fmt_u_digits [of n] by (simp add: strtol_digits_def takeWhile_all Let_def)

lemma strtol_fmt_d:
  assumes "LONG_MIN \<le> i" "i \<le> LONG_MAX"
  shows "strtol (fmt_d i) = \<lparr>sl_value = i, sl_end = length (fmt_d i), sl_erange = False\<rparr>"
proof (cases "i < 0")
  case True
  have "strtol (fmt_d i) = strtol_digits 1 True (fmt_u (nat (- i)))"
    using True by (simp add: strtol_def fmt_d_def isspace_def)
  then show ?thesis
    using True assms by (simp add: strtol_digits_fmt_u fmt_d_def LONG_MAX_def LONG_MIN_def)
next
  case False
  obtain c rest where cr: "fmt_u (nat i) = c # rest"
    using fmt_u_digits [of "nat i"] by (cases "fmt_u (nat i)") auto
  then have "isdigit c" using fmt_u_digits [of "nat i"] by simp
  from isdigit_not_space [OF this] cr False
  have "strtol (fmt_d i) = strtol_digits 0 False (fmt_u (nat i))"
    by (simp add: strtol_def fmt_d_def)
  then show ?thesis
    using False assms by (simp add: strtol_digits_fmt_u fmt_d_def LONG_MAX_def LONG_MIN_def)
qed

lemma fmt_d_length: "INT_MIN \<le> i \<Longrightarrow> i \<le> INT_MAX \<Longrightarrow> 0 < length (fmt_d i) \<and> length (fmt_d i) \<le> 11"
proof -
  assume a: "INT_MIN \<le> i" "i \<le> INT_MAX"
  have "nat \<bar>i\<bar> < 10 ^ 10" using a by (simp add: INT_MIN_def INT_MAX_def)
  from fmt_u_length [OF _ this] have "length (fmt_u (nat \<bar>i\<bar>)) \<le> 10" by simp
  then show ?thesis using fmt_u_digits [of "nat i"] by (auto simp: fmt_d_def abs_if split: if_splits)
qed

lemma sint_range32: "INT_MIN \<le> sint (v :: c_int) \<and> sint v \<le> INT_MAX"
  using sint_ge [of v] sint_lt [of v] by (simp add: INT_MIN_def INT_MAX_def)

lemma MAX_INT_LEN_val: "MAX_INT_LEN = 10" "MAX_INT_LEN_rev = 11"
  by (simp_all add: MAX_INT_LEN_def MAX_INT_LEN_rev_def INT_MAX_def ceil_log10.simps)

lemma util_int_to_string_rev_exact:
  "util_int_to_string_rev True (Some v) = Some (fmt_d (sint v)) \<and>
   length (fmt_d (sint v)) + 1 \<le> MAX_INT_LEN_rev + 1"
  using fmt_d_length [of "sint v"] sint_range32 [of v]
  by (simp add: util_int_to_string_rev_def snprintf_def MAX_INT_LEN_val)

lemma util_int_from_string_rev_fmt_d:
  "util_int_from_string_rev True errno (Some (fmt_d (sint (v :: c_int)))) = Inr (Some v, 0)"
proof -
  have r: "INT_MIN \<le> sint v" "sint v \<le> INT_MAX" using sint_range32 [of v] by simp_all
  then have "LONG_MIN \<le> sint v" "sint v \<le> LONG_MAX"
    by (simp_all add: INT_MIN_def INT_MAX_def LONG_MIN_def LONG_MAX_def)
  from strtol_fmt_d [OF this] r fmt_d_length [OF r] show ?thesis
    by (simp add: util_int_from_string_rev_def Let_def)
qed

lemma int_round_trip_rev:
  "\<exists>str. util_int_to_string_rev True (Some v) = Some str \<and>
     util_int_from_string_rev True errno (Some str) = Inr (Some v, 0) \<and>
     util_int_cmp_rev (Some v) (Some v) = 0"
  using util_int_to_string_rev_exact [of v] util_int_from_string_rev_fmt_d [of errno v]
  by (simp add: util_int_cmp_rev_def int_sub_def)

section \<open>What the integer parser accepts\<close>

lemma strtol_subject:
  "strtol str =
     strtol_digits (length str - length (snd (subject str))) (fst (subject str)) (snd (subject str))"
proof -
  define n where "n = length (takeWhile isspace str)"
  define d where "d = dropWhile isspace str"
  have l: "length str = n + length d"
    unfolding n_def d_def by (metis length_append takeWhile_dropWhile_id)
  have s: "strtol str =
      (case d of [] \<Rightarrow> strtol_digits n False []
       | c # rest \<Rightarrow>
           if c = CHR ''-'' then strtol_digits (n + 1) True rest
           else if c = CHR ''+'' then strtol_digits (n + 1) False rest
           else strtol_digits n False (c # rest))"
    unfolding strtol_def n_def d_def Let_def by (rule refl)
  have u: "subject str =
      (case d of [] \<Rightarrow> (False, [])
       | c # rest \<Rightarrow>
           if c = CHR ''-'' then (True, rest)
           else if c = CHR ''+'' then (False, rest)
           else (False, c # rest))"
    unfolding subject_def d_def by (rule refl)
  show ?thesis
    unfolding s u l by (cases d) (simp_all add: strtol_digits_def Let_def)
qed

lemma strtol_run:
  "sl_end (strtol str) = 0 \<longleftrightarrow> digit_run str = []"
  "sl_value (strtol str) =
     (if digit_run str = [] then 0
      else if LONG_MAX < run_value str then LONG_MAX
      else if run_value str < LONG_MIN then LONG_MIN else run_value str)"
  "sl_erange (strtol str) \<longleftrightarrow>
     digit_run str \<noteq> [] \<and> (LONG_MAX < run_value str \<or> run_value str < LONG_MIN)"
  unfolding strtol_subject by (auto simp: strtol_digits_def digit_run_def run_value_def Let_def)

lemma sint_word_of_int32:
  "INT_MIN \<le> k \<Longrightarrow> k \<le> INT_MAX \<Longrightarrow> sint (word_of_int k :: c_int) = k"
  by (simp only: sint_sbintrunc') (simp add: signed_take_bit_int_eq_self INT_MIN_def INT_MAX_def)

lemma util_int_from_string_rev_result:
  "util_int_from_string_rev malloc_ok errno (Some str) =
     Inr (if \<not> malloc_ok \<or> digit_run str = [] \<or> run_value str < INT_MIN \<or> INT_MAX < run_value str
          then (None, 0) else (Some (word_of_int (run_value str)), 0))"
  by (auto simp: util_int_from_string_rev_def Let_def strtol_run
      INT_MIN_def INT_MAX_def LONG_MIN_def LONG_MAX_def ERANGE_def)

lemma util_int_from_string_result:
  "util_int_from_string True errno (Some str) =
     Inr (if digit_run str = [] \<or> (run_value str = INT_MAX \<and> errno = 0) then (None, 0)
          else (Some (word_of_int (sl_value (strtol str))),
                if run_value str = INT_MAX then errno else ERANGE))"
  by (auto simp: util_int_from_string_def Let_def strtol_run
      INT_MIN_def INT_MAX_def LONG_MIN_def LONG_MAX_def ERANGE_def)

lemma run_123abc45: "digit_run ''123abc45'' = ''123'' \<and> run_value ''123abc45'' = 123"
  by (simp add: digit_run_def run_value_def subject_def isspace_def isdigit_def uchar_def digits_value_def)

section \<open>Evaluation of the model\<close>

lemmas eval_strtol = strtol_def strtol_digits_def isspace_def isdigit_def uchar_def
  digits_value_def Let_def LONG_MAX_def LONG_MIN_def INT_MAX_def INT_MIN_def ERANGE_def

lemmas eval_run = digit_run_def run_value_def subject_def isspace_def isdigit_def uchar_def
  digits_value_def INT_MAX_def INT_MIN_def

lemmas eval_fmt = MAX_INT_LEN_def MAX_INT_LEN_rev_def INT_MAX_def ceil_log10.simps snprintf_def
  fmt_d_def fmt_u.simps digit_char_def

text \<open>
  \<open>ceil_log10\<close> agrees with the real-valued \<open>ceil(log10(INT_MAX))\<close> the macros compute.
\<close>

lemma ceil_log10_INT_MAX: "int (ceil_log10 (nat INT_MAX)) = \<lceil>log 10 (real_of_int INT_MAX)\<rceil>"
proof -
  have a: "ceil_log10 (nat INT_MAX) = 10" by (simp add: INT_MAX_def ceil_log10.simps)
  have "(9::real) < log 10 2147483647"
    by (subst less_log_iff) simp_all
  moreover have "log 10 2147483647 \<le> (10::real)"
    by (subst log_le_iff) simp_all
  ultimately have "\<lceil>log 10 (2147483647::real)\<rceil> = 10" by (simp add: ceiling_eq_iff)
  then show ?thesis using a by (simp add: INT_MAX_def)
qed

text \<open>
  The revision \<open>src/unnamed/part_006\<close> stops at the first byte that is not a digit and
  ignores the rest.
\<close>

lemma util_int_from_string_rev_example:
  "util_int_from_string_rev True errno (Some ''123abc45'') = Inr (Some 123, 0)"
  by (simp add: util_int_from_string_rev_def eval_strtol)

lemma util_double_from_string_rev_range_error:
  "sd_erange (strtod str) \<Longrightarrow>
   util_double_from_string_rev strtod malloc_ok errno (Some str) = Inr (None, 0)"
  by (simp add: util_double_from_string_rev_def Let_def ERANGE_def)

lemma print_token_space:
  "\<not> failing file \<Longrightarrow>
   util_char_print (Some file) (Some c) = Inr (file\<lparr>written := written file @ [c] @ '' ''\<rparr>, 2) \<and>
   util_int_print (Some file) (Some i) =
     Inr (file\<lparr>written := written file @ fmt_d (sint i) @ '' ''\<rparr>, int (length (fmt_d (sint i))) + 1) \<and>
   util_string_print (Some file) (Some s) =
     Inr (file\<lparr>written := written file @ s @ '' ''\<rparr>, int (length s) + 1) \<and>
   util_generic_print fmt_p (Some file) (Some a) =
     Inr (file\<lparr>written := written file @ fmt_p a @ '' ''\<rparr>, int (length (fmt_p a)) + 1)"
  by (simp add: util_char_print_def util_int_print_def util_string_print_def
      util_generic_print_def fprintf_def)

section \<open>The claims\<close>

text \<open>
  Claim C1: for every non-null string, \<open>util_int_from_string\<close> returns NULL if and only if
  the allocation fails, no digit was consumed, or the value parsed lies outside the 32-bit
  signed range; otherwise it returns the value of the leading decimal run.

  \<open>src/src/utilities.c\<close> does not do this.  Its range test reads
  \<open>tmp > INT_MAX || tmp < INT_MAX\<close> and its first check is \<open>check(errno != 0, ...)\<close>, so
  \<open>"2147483648"\<close> (out of range) yields a handle to the wrapped value \<open>-2147483648\<close>, and
  \<open>"2147483647"\<close> (in range, digits consumed) yields NULL when \<open>errno\<close> is 0 on entry.
  The revision \<open>src/unnamed/part_006\<close> satisfies the claim
  (\<open>util_int_from_string_rev_result\<close>).
\<close>

theorem util_int_from_string_range_slip:
  "digit_run ''2147483648'' \<noteq> [] \<and> INT_MAX < run_value ''2147483648'' \<and>
   util_int_from_string True 0 (Some ''2147483648'') = Inr (Some (- 2147483648), ERANGE) \<and>
   digit_run ''2147483647'' \<noteq> [] \<and> INT_MIN \<le> run_value ''2147483647'' \<and>
   run_value ''2147483647'' \<le> INT_MAX \<and>
   util_int_from_string True 0 (Some ''2147483647'') = Inr (None, 0)"
proof -
  have "digit_run ''2147483648'' \<noteq> []" "INT_MAX < run_value ''2147483648''"
    "digit_run ''2147483647'' \<noteq> []" "INT_MIN \<le> run_value ''2147483647''"
    "run_value ''2147483647'' \<le> INT_MAX"
    by (simp_all add: eval_run)
  moreover have "util_int_from_string True 0 (Some ''2147483648'') = Inr (Some (- 2147483648), ERANGE)"
    by (simp add: util_int_from_string_def eval_strtol)
  moreover have "util_int_from_string True 0 (Some ''2147483647'') = Inr (None, 0)"
    by (simp add: util_int_from_string_def eval_strtol)
  ultimately show ?thesis by simp
qed

text \<open>
  Claim C2 as stated, that each of \<open>util_char_cmp\<close>, \<open>util_int_cmp\<close>,
  \<open>util_double_cmp\<close> and \<open>util_string_cmp\<close> induces a total order on value-or-absent,
  fails: a NaN compares equal to every double, so \<open>1 \<le> NaN \<le> 0\<close> without \<open>1 \<le> 0\<close>;
  the two zeros \<open>+0.0\<close> and \<open>-0.0\<close> are different values below each other, against
  antisymmetry; and the subtraction in \<open>util_int_cmp\<close> of \<open>src/src/utilities.c\<close> wraps, so
  \<open>INT_MIN \<le> 0 \<le> INT_MAX\<close> without \<open>INT_MIN \<le> INT_MAX\<close>.
\<close>

theorem cmp_total_order_counterexample:
  "cmp_le util_double_cmp (Some (Finite 1)) (Some NaN) \<and>
   cmp_le util_double_cmp (Some NaN) (Some (Finite 0)) \<and>
   \<not> cmp_le util_double_cmp (Some (Finite 1)) (Some (Finite 0)) \<and>
   cmp_le util_double_cmp (Some (Finite 0)) (Some NegZero) \<and>
   cmp_le util_double_cmp (Some NegZero) (Some (Finite 0)) \<and>
   Some (Finite 0) \<noteq> Some NegZero \<and>
   cmp_le util_int_cmp (Some (- 2147483648)) (Some 0) \<and>
   cmp_le util_int_cmp (Some 0) (Some 2147483647) \<and>
   \<not> cmp_le util_int_cmp (Some (- 2147483648)) (Some 2147483647)"
  by (simp add: cmp_le_def util_double_cmp_def util_int_cmp_def int_sub_def)

text \<open>
  Claim C2, as amended: \<open>util_char_cmp\<close>, \<open>util_string_cmp\<close> (on well-formed strings) and
  the revised \<open>util_int_cmp\<close> of \<open>src/unnamed/part_006\<close> induce a total order (reflexive,
  antisymmetric, transitive, total) on value-or-absent.  On value-or-absent without NaN,
  \<open>util_double_cmp\<close> induces a relation that is reflexive, transitive and total, and
  antisymmetric up to the sign of zero: two handles below each other are equal or hold the two
  zeros, and the function returns 0 exactly on such pairs.  For each of these functions, and
  for \<open>util_int_cmp\<close> of \<open>src/src/utilities.c\<close>, NULL orders strictly before every present
  value and \<open>compare(NULL, NULL)\<close> is 0.
\<close>

theorem cmp_total_order_amended:
  "total_order_on UNIV (util_char_cmp signed_char) \<and> null_first (util_char_cmp signed_char) \<and>
   total_order_on string_handles util_string_cmp \<and> null_first util_string_cmp \<and>
   total_order_modulo same_double ordered_doubles util_double_cmp \<and>
   (\<forall>a\<in>ordered_doubles. \<forall>b\<in>ordered_doubles.
      sint (util_double_cmp a b) = 0 \<longleftrightarrow> same_double a b) \<and>
   null_first util_double_cmp \<and>
   total_order_on UNIV util_int_cmp_rev \<and> null_first util_int_cmp_rev \<and>
   null_first util_int_cmp"
  using double_cmp_equal
  by (simp only: char_cmp_order char_cmp_null string_cmp_order string_cmp_null
      double_cmp_order double_cmp_null int_cmp_rev_order int_cmp_rev_null int_cmp_null simp_thms)
    blast

theorem cmp_total_order_amended_witness:
  "Some [] \<in> string_handles \<and> Some ''aaa'' \<in> string_handles \<and> Some ''aab'' \<in> string_handles \<and>
   cmp_le util_string_cmp (Some []) (Some ''aaa'') \<and>
   cmp_le util_string_cmp (Some ''aaa'') (Some ''aab'') \<and>
   cmp_le util_string_cmp (Some []) (Some ''aab'') \<and>
   Some (Finite 0) \<in> ordered_doubles \<and> Some PInf \<in> ordered_doubles \<and>
   Some NegZero \<in> ordered_doubles \<and>
   (cmp_le util_double_cmp (Some (Finite 0)) (Some PInf) \<or>
    cmp_le util_double_cmp (Some PInf) (Some (Finite 0))) \<and>
   cmp_le util_double_cmp (Some (Finite 0)) (Some NegZero) \<and>
   cmp_le util_double_cmp (Some NegZero) (Some (Finite 0)) \<and>
   same_double (Some (Finite 0)) (Some NegZero) \<and>
   sint (util_double_cmp (Some (Finite 0)) (Some NegZero)) = 0"
proof -
  have h: "Some [] \<in> string_handles" "Some ''aaa'' \<in> string_handles" "Some ''aab'' \<in> string_handles"
    by (simp_all add: string_handles_def cstring_def)
  have l: "cmp_le util_string_cmp (Some []) (Some ''aaa'')"
    "cmp_le util_string_cmp (Some ''aaa'') (Some ''aab'')"
    by (simp_all add: cmp_le_def util_string_cmp_def uchar_def)
  have d: "Some (Finite 0) \<in> ordered_doubles" "Some PInf \<in> ordered_doubles"
    "Some NegZero \<in> ordered_doubles"
    by (simp_all add: ordered_doubles_def)
  have z: "cmp_le util_double_cmp (Some (Finite 0)) (Some NegZero)"
    "cmp_le util_double_cmp (Some NegZero) (Some (Finite 0))"
    by (simp_all add: cmp_le_def util_double_cmp_def int_sub_def)
  from cmp_total_order_amended [of True]
  have t: "total_order_on string_handles util_string_cmp"
    and u: "total_order_modulo same_double ordered_doubles util_double_cmp"
    and e: "\<forall>a\<in>ordered_doubles. \<forall>b\<in>ordered_doubles.
      sint (util_double_cmp a b) = 0 \<longleftrightarrow> same_double a b" by simp_all
  from t h l have "cmp_le util_string_cmp (Some []) (Some ''aab'')"
    unfolding total_order_on_def by blast
  moreover from u d have "cmp_le util_double_cmp (Some (Finite 0)) (Some PInf) \<or>
    cmp_le util_double_cmp (Some PInf) (Some (Finite 0))"
    unfolding total_order_modulo_def by blast
  moreover from u d z have s: "same_double (Some (Finite 0)) (Some NegZero)"
    unfolding total_order_modulo_def by blast
  moreover from e d s have "sint (util_double_cmp (Some (Finite 0)) (Some NegZero)) = 0"
    by blast
  ultimately show ?thesis using h l d z by simp
qed

text \<open>
  Claim C3: for every 32-bit signed integer \<open>n\<close>, \<open>util_int_from_string\<close> applied to
  \<open>util_int_to_string\<close> of \<open>n\<close> yields a present value that compares equal to \<open>n\<close>.

  \<open>src/src/utilities.c\<close> does not do this.  For \<open>n = INT_MIN\<close> the buffer of
  \<open>MAX_INT_LEN + 1 = 11\<close> bytes truncates the text to \<open>"-214748364"\<close>, which parses as
  \<open>-214748364\<close>; for \<open>n = INT_MAX\<close> the text is exact but the parse returns NULL when
  \<open>errno\<close> is 0 on entry.  The revision \<open>src/unnamed/part_006\<close> satisfies the claim
  (\<open>int_round_trip_rev\<close>).
\<close>

theorem int_round_trip_slip:
  "util_int_to_string True (Some (- 2147483648)) = Some ''-214748364'' \<and>
   util_int_from_string True 0 (Some ''-214748364'') = Inr (Some (- 214748364), ERANGE) \<and>
   util_int_cmp (Some (- 214748364)) (Some (- 2147483648)) \<noteq> 0 \<and>
   util_int_to_string True (Some 2147483647) = Some ''2147483647'' \<and>
   util_int_from_string True 0 (Some ''2147483647'') = Inr (None, 0)"
proof -
  have "util_int_to_string True (Some (- 2147483648)) = Some ''-214748364''"
    "util_int_to_string True (Some 2147483647) = Some ''2147483647''"
    by (simp_all add: util_int_to_string_def eval_fmt)
  moreover have "util_int_from_string True 0 (Some ''-214748364'') = Inr (Some (- 214748364), ERANGE)"
    "util_int_from_string True 0 (Some ''2147483647'') = Inr (None, 0)"
    by (simp_all add: util_int_from_string_def eval_strtol)
  moreover have "util_int_cmp (Some (- 214748364)) (Some (- 2147483648)) \<noteq> 0"
    by (simp add: util_int_cmp_def int_sub_def)
  ultimately show ?thesis by simp
qed

text \<open>
  Claim C4: \<open>util_int_to_string\<close> of \<open>INT_MIN\<close> returns its exact decimal text with the
  leading minus sign, and the buffer is never smaller than the formatted text requires.

  \<open>src/src/utilities.c\<close> does not do this: \<open>MAX_INT_LEN\<close> is \<open>ceil(log10(INT_MAX)) = 10\<close>
  with no room for the sign, so the 11-byte buffer holds \<open>"-214748364"\<close> where 12 bytes are
  required.  The revision \<open>src/unnamed/part_006\<close> adds 1 and satisfies the claim
  (\<open>util_int_to_string_rev_exact\<close>).
\<close>

theorem util_int_to_string_min_truncated:
  "sint (- 2147483648 :: c_int) = INT_MIN \<and>
   fmt_d INT_MIN = ''-2147483648'' \<and>
   util_int_to_string True (Some (- 2147483648)) = Some ''-214748364'' \<and>
   MAX_INT_LEN + 1 < length (fmt_d INT_MIN) + 1"
proof -
  have "sint (- 2147483648 :: c_int) = INT_MIN" by (simp add: INT_MIN_def INT_MAX_def)
  moreover have f: "fmt_d INT_MIN = ''-2147483648''" by (simp add: INT_MIN_def eval_fmt)
  moreover have "util_int_to_string True (Some (- 2147483648)) = Some ''-214748364''"
    by (simp add: util_int_to_string_def eval_fmt)
  moreover have "MAX_INT_LEN + 1 < length (fmt_d INT_MIN) + 1"
    unfolding f by (simp add: MAX_INT_LEN_def INT_MAX_def ceil_log10.simps)
  ultimately show ?thesis by blast
qed

text \<open>
  Claim C5: when the platform parser reports a range error (overflow to an infinity or
  underflow to zero), \<open>util_double_from_string\<close> returns NULL.

  \<open>src/src/utilities.c\<close> does not do this: its first check is \<open>check(errno != 0, ...)\<close>,
  which a range error passes, so whenever the parser consumed something the clamped value
  is returned.  The revision \<open>src/unnamed/part_006\<close> satisfies the claim
  (\<open>util_double_from_string_rev_range_error\<close>).
\<close>

theorem util_double_from_string_range_error:
  "sd_erange (strtod str) \<Longrightarrow> sd_end (strtod str) \<noteq> 0 \<Longrightarrow>
   util_double_from_string strtod True errno (Some str) = Inr (Some (sd_value (strtod str)), ERANGE)"
  by (simp add: util_double_from_string_def Let_def ERANGE_def)

theorem util_double_from_string_range_error_witness:
  "sd_erange ((\<lambda>s. \<lparr>sd_value = PInf, sd_end = length s, sd_erange = True\<rparr>) ''34e+1024'') \<and>
   sd_end ((\<lambda>s. \<lparr>sd_value = PInf, sd_end = length s, sd_erange = True\<rparr>) ''34e+1024'') \<noteq> 0 \<and>
   util_double_from_string (\<lambda>s. \<lparr>sd_value = PInf, sd_end = length s, sd_erange = True\<rparr>)
     True 0 (Some ''34e+1024'') = Inr (Some PInf, ERANGE)"
  using util_double_from_string_range_error
    [of "\<lambda>s. \<lparr>sd_value = PInf, sd_end = length s, sd_erange = True\<rparr>" "''34e+1024''" 0]
  by simp

text \<open>
  Claim C6: on the empty string the integer and the double \<open>from_string\<close> return NULL,
  the character one returns a present NUL character and the string one a present empty
  string (when the allocations succeed).  This holds in both revisions, for every value of
  \<open>errno\<close> on entry and every parser whose \<open>end\<close> stays inside the string.
\<close>

theorem from_string_empty:
  "strtod_wf strtod \<Longrightarrow>
   util_int_from_string malloc_ok errno (Some []) = Inr (None, 0) \<and>
   util_double_from_string strtod malloc_ok errno (Some []) = Inr (None, 0) \<and>
   util_char_from_string True errno (Some []) = Inr (Some (CHR 0x00), errno) \<and>
   util_string_from_string True True errno (Some []) = Inr (Some [], errno) \<and>
   util_int_from_string_rev malloc_ok errno (Some []) = Inr (None, 0) \<and>
   util_double_from_string_rev strtod malloc_ok errno (Some []) = Inr (None, 0) \<and>
   util_string_from_string_rev True errno (Some []) = Inr (Some [], errno)"
proof -
  assume "strtod_wf strtod"
  then have e: "sd_end (strtod []) = 0"
    unfolding strtod_wf_def by (metis le_zero_eq list.size(3))
  have "util_int_from_string malloc_ok errno (Some []) = Inr (None, 0)"
    "util_int_from_string_rev malloc_ok errno (Some []) = Inr (None, 0)"
    by (simp_all add: util_int_from_string_def util_int_from_string_rev_def eval_strtol)
  moreover have "util_double_from_string strtod malloc_ok errno (Some []) = Inr (None, 0)"
    "util_double_from_string_rev strtod malloc_ok errno (Some []) = Inr (None, 0)"
    using e by (simp_all add: util_double_from_string_def util_double_from_string_rev_def Let_def)
  moreover have "util_char_from_string True errno (Some []) = Inr (Some (CHR 0x00), errno)"
    "util_string_from_string True True errno (Some []) = Inr (Some [], errno)"
    "util_string_from_string_rev True errno (Some []) = Inr (Some [], errno)"
    by (simp_all add: util_char_from_string_def util_string_from_string_def
        util_string_from_string_rev_def)
  ultimately show ?thesis by simp
qed

theorem from_string_empty_witness:
  "strtod_wf (\<lambda>s. \<lparr>sd_value = Finite 0, sd_end = 0, sd_erange = False\<rparr>) \<and>
   util_int_from_string True 0 (Some []) = Inr (None, 0) \<and>
   util_double_from_string (\<lambda>s. \<lparr>sd_value = Finite 0, sd_end = 0, sd_erange = False\<rparr>)
     True 0 (Some []) = Inr (None, 0) \<and>
   util_char_from_string True 0 (Some []) = Inr (Some (CHR 0x00), 0) \<and>
   util_string_from_string True True 0 (Some []) = Inr (Some [], 0)"
proof -
  have w: "strtod_wf (\<lambda>s. \<lparr>sd_value = Finite 0, sd_end = 0, sd_erange = False\<rparr>)"
    by (simp add: strtod_wf_def)
  from from_string_empty [OF w, of True 0] w show ?thesis by simp
qed

text \<open>
  Claim C7: for every kind and every present handle, the print function writes the formatted
  token followed by a single space; in particular \<open>util_double_print\<close> does.

  \<open>util_double_print\<close> does not, in either revision: its format is \<open>"%.*g"\<close> with no
  trailing space, so exactly the formatted value is written.  The other kinds of
  \<open>src/src/utilities.c\<close> do write the space (\<open>print_token_space\<close>).
\<close>

theorem util_double_print_no_separator:
  "\<not> failing file \<Longrightarrow>
   util_double_print fmt_g (Some file) (Some d) =
     Inr (file\<lparr>written := written file @ fmt_g DBL_DIG d\<rparr>, int (length (fmt_g DBL_DIG d))) \<and>
   written (fst (projr (util_double_print fmt_g (Some file) (Some d))))
     \<noteq> written file @ fmt_g DBL_DIG d @ '' ''"
  by (simp add: util_double_print_def fprintf_def)

theorem util_double_print_no_separator_witness:
  "\<not> failing \<lparr>written = [], failing = False\<rparr> \<and>
   util_double_print (\<lambda>p x. ''1.5'') (Some \<lparr>written = [], failing = False\<rparr>) (Some (Finite (3 / 2)))
     = Inr (\<lparr>written = ''1.5'', failing = False\<rparr>, 3)"
  using util_double_print_no_separator
    [of "\<lparr>written = [], failing = False\<rparr>" "\<lambda>p x. ''1.5''" "Finite (3 / 2)"]
  by simp

text \<open>
  Claim C8: for every kind, printing the NULL handle to a valid stream writes exactly the five
  bytes \<open>"null "\<close> and, when the write succeeds, returns a non-negative count (5).
\<close>

theorem print_null:
  "\<not> failing file \<Longrightarrow>
   util_generic_print fmt_p (Some file) None = Inr (file\<lparr>written := written file @ ''null ''\<rparr>, 5) \<and>
   util_generic_print_rev (Some file) None = Inr (file\<lparr>written := written file @ ''null ''\<rparr>, 5) \<and>
   util_char_print (Some file) None = Inr (file\<lparr>written := written file @ ''null ''\<rparr>, 5) \<and>
   util_int_print (Some file) None = Inr (file\<lparr>written := written file @ ''null ''\<rparr>, 5) \<and>
   util_double_print fmt_g (Some file) None = Inr (file\<lparr>written := written file @ ''null ''\<rparr>, 5) \<and>
   util_string_print (Some file) None = Inr (file\<lparr>written := written file @ ''null ''\<rparr>, 5)"
  by (simp add: util_generic_print_def util_generic_print_rev_def util_char_print_def
      util_int_print_def util_double_print_def util_string_print_def fprintf_def DEF_NULL_def)

theorem print_null_witness:
  "\<not> failing \<lparr>written = ''x'', failing = False\<rparr> \<and>
   util_int_print (Some \<lparr>written = ''x'', failing = False\<rparr>) None
     = Inr (\<lparr>written = ''xnull '', failing = False\<rparr>, 5) \<and>
   util_double_print (\<lambda>p x. []) (Some \<lparr>written = ''x'', failing = False\<rparr>) None
     = Inr (\<lparr>written = ''xnull '', failing = False\<rparr>, 5)"
  using print_null [of "\<lparr>written = ''x'', failing = False\<rparr>" "\<lambda>a. []" "\<lambda>p x. []"]
  by simp

text \<open>
  Claim C9: for two present character handles \<open>util_char_cmp\<close> returns the difference of
  the two character codes, which lies in \<open>[-255, 255]\<close>; the subtraction cannot overflow and
  the sign of the result is the order of the codes.  The same subtraction in \<open>util_int_cmp\<close>
  of \<open>src/src/utilities.c\<close> can overflow: at \<open>INT_MIN\<close> and \<open>INT_MAX\<close> the result is
  positive.
\<close>

theorem util_char_cmp_difference:
  "sint (util_char_cmp signed_char (Some c1) (Some c2))
     = char_to_int signed_char c1 - char_to_int signed_char c2 \<and>
   - 255 \<le> sint (util_char_cmp signed_char (Some c1) (Some c2)) \<and>
   sint (util_char_cmp signed_char (Some c1) (Some c2)) \<le> 255 \<and>
   \<not> int_sub_overflows (char_to_int signed_char c1) (char_to_int signed_char c2) \<and>
   (sint (util_char_cmp signed_char (Some c1) (Some c2)) < 0
      \<longleftrightarrow> char_to_int signed_char c1 < char_to_int signed_char c2) \<and>
   (sint (util_char_cmp signed_char (Some c1) (Some c2)) = 0 \<longleftrightarrow> c1 = c2) \<and>
   (0 < sint (util_char_cmp signed_char (Some c1) (Some c2))
      \<longleftrightarrow> char_to_int signed_char c2 < char_to_int signed_char c1) \<and>
   int_sub_overflows (sint (- 2147483648 :: c_int)) (sint (2147483647 :: c_int)) \<and>
   sint (- 2147483648 :: c_int) < sint (2147483647 :: c_int) \<and>
   0 < sint (util_int_cmp (Some (- 2147483648)) (Some 2147483647))"
proof -
  have r: "- 255 \<le> char_to_int signed_char c1 - char_to_int signed_char c2"
    "char_to_int signed_char c1 - char_to_int signed_char c2 \<le> 255"
    using char_diff_range [of signed_char c1 c2] by simp_all
  have e: "char_to_int signed_char c1 - char_to_int signed_char c2 = 0 \<longleftrightarrow> c1 = c2"
    using char_to_int_inj [of signed_char c1 c2] by auto
  have i: "int_sub_overflows (sint (- 2147483648 :: c_int)) (sint (2147483647 :: c_int))"
    "sint (- 2147483648 :: c_int) < sint (2147483647 :: c_int)"
    "0 < sint (util_int_cmp (Some (- 2147483648)) (Some 2147483647))"
    by (simp_all add: int_sub_overflows_def INT_MIN_def INT_MAX_def util_int_cmp_def int_sub_def)
  show ?thesis
    unfolding sint_util_char_cmp using r e i char_sub_no_overflow [of signed_char c1 c2] by simp
qed

text \<open>
  Claim C10: when at least one of two present double handles points to a NaN,
  \<open>util_double_cmp\<close> returns 0, since both \<open>d1 > d2\<close> and \<open>d1 < d2\<close> are false; so a NaN
  compares equal to every double, also to two values that compare unequal to each other.
\<close>

theorem util_double_cmp_nan:
  "(d1 = NaN \<or> d2 = NaN \<longrightarrow>
      util_double_cmp (Some d1) (Some d2) = 0 \<and> \<not> double_less d2 d1 \<and> \<not> double_less d1 d2) \<and>
   util_double_cmp (Some NaN) (Some (Finite 0)) = 0 \<and>
   util_double_cmp (Some NaN) (Some (Finite 1)) = 0 \<and>
   util_double_cmp (Some (Finite 0)) (Some (Finite 1)) \<noteq> 0"
proof -
  have "\<not> double_less d2 d1 \<and> \<not> double_less d1 d2" if "d1 = NaN \<or> d2 = NaN"
    using that by (cases d1; cases d2) auto
  then show ?thesis
    by (auto simp: util_double_cmp_def int_sub_def)
qed

theorem util_double_cmp_nan_witness:
  "util_double_cmp (Some (Finite 1)) (Some NaN) = 0 \<and> util_double_cmp (Some NaN) (Some NaN) = 0"
  using util_double_cmp_nan [of "Finite 1" NaN] util_double_cmp_nan [of NaN NaN] by simp

end
